theory Spec2Isabelle
  imports Main "HOL-Library.Sublist" "HOL-Library.List_Lexorder" "HOL-Library.Word"
begin

section \<open>Python values\<close>

text \<open>
  A Python \<open>str\<close> is a sequence of Unicode code points; it is modelled as the list of
  its code points. Python compares two strings code point by code point, a proper prefix
  being the smaller one: this is the lexicographic order on lists of
  \<open>HOL-Library.List_Lexorder\<close>. \<open>py\<close> turns a literal into such a string.
\<close>

type_synonym pystr = "nat list"

definition py :: "string \<Rightarrow> pystr" where
  "py s = map of_char s"

text \<open>\<open>s.endswith(suf)\<close> and \<open>s.startswith(pre)\<close>.\<close>

definition endswith :: "pystr \<Rightarrow> pystr \<Rightarrow> bool" where
  "endswith s suf = suffix suf s"

definition startswith :: "pystr \<Rightarrow> pystr \<Rightarrow> bool" where
  "startswith s pre = prefix pre s"

text \<open>The exceptions the modelled functions can raise.\<close>

datatype py_error = AttributeError | TypeError | UnicodeEncodeError | IndexError | JSONEncodeError

text \<open>
  The values an \<open>Any\<close>-typed input can hold, as far as the code tells them apart: a
  \<open>str\<close>, a \<open>bytes\<close> buffer, a \<open>dict\<close> (string keys, in insertion order), or any other
  object. Of another object the code uses two things, which represent it: its string form
  \<open>str(v)\<close>, and what \<open>v.startswith(arg)\<close> does for a string \<open>arg\<close>, which is to raise
  (\<open>AttributeError\<close> for \<open>None\<close>, a number or a list, which have no such method;
  \<open>TypeError\<close> for a \<open>bytearray\<close>) or to return a value that is truthy or not.
\<close>

datatype pyval =
    PStr pystr
  | PBytes "8 word list"
  | PDict "(pystr \<times> pyval) list"
  | POther pystr "pystr \<Rightarrow> py_error + bool"

text \<open>
  \<open>v.startswith(arg)\<close> for a string \<open>arg\<close>, as a truth value: \<open>bytes.startswith\<close> refuses a
  \<open>str\<close> argument with \<open>TypeError\<close>, and a \<open>dict\<close> has no such method.
\<close>

fun py_startswith :: "pyval \<Rightarrow> pystr \<Rightarrow> py_error + bool" where
  "py_startswith (PStr s) arg = Inr (startswith s arg)"
| "py_startswith (PBytes b) arg = Inl TypeError"
| "py_startswith (PDict d) arg = Inl AttributeError"
| "py_startswith (POther str_form startswith_method) arg = startswith_method arg"

text \<open>
  \<open>s.encode('utf-8')\<close>, the built-in encoder: one to four bytes per code point, and
  \<open>UnicodeEncodeError\<close> on a surrogate (U+D800 to U+DFFF). A Python string holds no code
  point above U+10FFFF.
\<close>

definition utf8_encode_char :: "nat \<Rightarrow> py_error + 8 word list" where
  "utf8_encode_char c =
     (if c < 0x80 then Inr [of_nat c]
      else if c < 0x800 then Inr [of_nat (0xC0 + c div 0x40), of_nat (0x80 + c mod 0x40)]
      else if 0xD800 \<le> c \<and> c \<le> 0xDFFF then Inl UnicodeEncodeError
      else if c < 0x10000 then
        Inr [of_nat (0xE0 + c div 0x1000), of_nat (0x80 + c div 0x40 mod 0x40),
             of_nat (0x80 + c mod 0x40)]
      else
        Inr [of_nat (0xF0 + c div 0x40000), of_nat (0x80 + c div 0x1000 mod 0x40),
             of_nat (0x80 + c div 0x40 mod 0x40), of_nat (0x80 + c mod 0x40)])"

fun utf8_encode :: "pystr \<Rightarrow> py_error + 8 word list" where
  "utf8_encode [] = Inr []"
| "utf8_encode (c # cs) =
     (case utf8_encode_char c of
        Inl e \<Rightarrow> Inl e
      | Inr bs \<Rightarrow> (case utf8_encode cs of Inl e \<Rightarrow> Inl e | Inr rest \<Rightarrow> Inr (bs @ rest)))"

text \<open>
  \<open>a or b\<close> for an \<open>Optional[str]\<close> \<open>a\<close>: Python takes \<open>a\<close> when it is truthy, and both
  \<open>None\<close> and the empty string are falsy.
\<close>

definition py_or :: "pystr option \<Rightarrow> pystr \<Rightarrow> pystr" where
  "py_or a b = (case a of None \<Rightarrow> b | Some s \<Rightarrow> if s = [] then b else s)"

text \<open>
  What a call does: it returns a value; or it raises an exception of class \<open>Exception\<close>
  (\<open>Raised\<close>), which \<open>except Exception as e\<close> catches and of which the code uses the string
  form \<open>str(e)\<close>; or it raises a \<open>BaseException\<close> outside \<open>Exception\<close> (\<open>RaisedBase\<close>:
  \<open>asyncio.CancelledError\<close>, \<open>KeyboardInterrupt\<close>, \<open>SystemExit\<close>), which
  \<open>except Exception\<close> does not catch.
\<close>

datatype 'a outcome = Returned 'a | Raised pystr | RaisedBase pystr

section \<open>Permission resolution (authentication.py)\<close>

text \<open>
  The loop of \<open>PermissionResolver._expand_wildcards\<close>, with the list \<open>expanded\<close> as its
  accumulator. \<open>perm[:-2]\<close> drops the last two code points.
\<close>

fun expand_loop :: "pystr list \<Rightarrow> pystr list \<Rightarrow> pystr list \<Rightarrow> pystr list" where
  "expand_loop [] target_perms expanded = expanded"
| "expand_loop (perm # rest) target_perms expanded =
     (if endswith perm (py ''.*'')
      then (let prefix = take (length perm - 2) perm;
                matching = filter (\<lambda>p. startswith p (prefix @ py ''.'')) target_perms
            in expand_loop rest target_perms (expanded @ matching))
      else expand_loop rest target_perms (expanded @ [perm]))"

text \<open>
  \<open>_expand_wildcards\<close> returns \<open>list(set(expanded))\<close>: the elements of \<open>expanded\<close>, each
  once, in an order Python leaves open. Its only caller turns the list into a set again,
  so the model lists them in the order of their last occurrence (\<open>remdups\<close>).
\<close>

definition expand_wildcards :: "pystr list \<Rightarrow> pystr list \<Rightarrow> pystr list" where
  "expand_wildcards wildcard_perms target_perms =
     remdups (expand_loop wildcard_perms target_perms [])"

text \<open>
  \<open>compute_final_permissions\<close>: \<open>sorted(list(set(expanded) & set(user_permissions)))\<close>.
  The sorted list of the elements of a finite set under a linear order is unique.
\<close>

definition compute_final_permissions :: "pystr list \<Rightarrow> pystr list \<Rightarrow> pystr list" where
  "compute_final_permissions credential_permissions user_permissions =
     (let expanded_credential_perms = expand_wildcards credential_permissions user_permissions;
          final_perms = set expanded_credential_perms \<inter> set user_permissions
      in sorted_list_of_set final_perms)"

section \<open>Content type and input size (validation.py)\<close>

text \<open>
  \<open>InputValidator._detect_content_type\<close>. The mapping is a \<open>Dict[str, Any]\<close>, so the
  value under \<open>text\<close> can be any object. \<open>text.startswith("/") or text.startswith("!")\<close>
  makes the second call only when the first returns a falsy value, and an exception of
  either call leaves the function.
\<close>

definition detect_content_type :: "(pystr \<rightharpoonup> pyval) \<Rightarrow> py_error + pystr" where
  "detect_content_type normalized_input =
     (case normalized_input (py ''text'') of
        Some text \<Rightarrow>
          (case py_startswith text (py ''/'') of
             Inl e \<Rightarrow> Inl e
           | Inr slash \<Rightarrow>
               (case (if slash then Inr True else py_startswith text (py ''!'')) of
                  Inl e \<Rightarrow> Inl e
                | Inr is_command \<Rightarrow>
                    if is_command then Inr (py ''command'')
                    else if normalized_input (py ''attachments'') \<noteq> None
                      then Inr (py ''text_with_attachments'')
                    else Inr (py ''text'')))
      | None \<Rightarrow>
          if normalized_input (py ''file'') \<noteq> None then Inr (py ''file_upload'')
          else Inr (py ''unknown''))"

text \<open>
  \<open>InputValidator._calculate_input_size\<close>. \<open>json.dumps(raw_input, default=str)\<close> is the
  standard library's serializer and is a parameter here: it returns the serialized
  string or raises.
\<close>

definition calculate_input_size ::
  "((pystr \<times> pyval) list \<Rightarrow> py_error + pystr) \<Rightarrow> pyval \<Rightarrow> py_error + nat" where
  "calculate_input_size json_dumps raw_input =
     (case raw_input of
        PStr s \<Rightarrow> map_sum id length (utf8_encode s)
      | PBytes b \<Rightarrow> Inr (length b)
      | PDict d \<Rightarrow>
          (case json_dumps d of
             Inl e \<Rightarrow> Inl e
           | Inr js \<Rightarrow> map_sum id length (utf8_encode js))
      | POther str_form startswith_method \<Rightarrow> map_sum id length (utf8_encode str_form))"

section \<open>Provider selection (capabilities.py)\<close>

text \<open>
  The loop of \<open>CapabilityRegistry.find_best_provider_for_requirements\<close>:
  \<open>candidate_providers\<close> starts as \<open>None\<close> and is intersected with the providers of each
  required capability. \<open>find_providers_with_capability\<close> is abstract in the registry and
  is a parameter.
\<close>

fun candidates_loop ::
  "(pystr \<Rightarrow> pystr list) \<Rightarrow> pystr list \<Rightarrow> pystr set option \<Rightarrow> pystr set option" where
  "candidates_loop find_providers_with_capability [] candidate_providers = candidate_providers"
| "candidates_loop find_providers_with_capability (capability # rest) candidate_providers =
     (let providers_with_capability = set (find_providers_with_capability capability)
      in candidates_loop find_providers_with_capability rest
           (case candidate_providers of
              None \<Rightarrow> Some providers_with_capability
            | Some c \<Rightarrow> Some (c \<inter> providers_with_capability)))"

text \<open>
  \<open>if not candidate_providers\<close> holds for \<open>None\<close> and for the empty set;
  \<open>if preferred_providers\<close> fails for \<open>None\<close> and for the empty list. The function
  returns \<open>list(candidate_providers)[0]\<close>: the order in which Python lists a set of
  strings is not fixed by the language, so it is the parameter \<open>list_of\<close>, and indexing
  an empty list raises \<open>IndexError\<close>.
\<close>

definition find_best_provider_for_requirements ::
  "(pystr set \<Rightarrow> pystr list) \<Rightarrow> (pystr \<Rightarrow> pystr list) \<Rightarrow> pystr list \<Rightarrow> pystr list option
     \<Rightarrow> py_error + pystr option" where
  "find_best_provider_for_requirements list_of find_providers_with_capability
      required_capabilities preferred_providers =
     (case candidates_loop find_providers_with_capability required_capabilities None of
        None \<Rightarrow> Inr None
      | Some candidate_providers \<Rightarrow>
          if candidate_providers = {} then Inr None
          else
            (let candidate_providers =
               (case preferred_providers of
                  None \<Rightarrow> candidate_providers
                | Some preferred \<Rightarrow>
                    if preferred = [] then candidate_providers
                    else (let preferred_candidates = candidate_providers \<inter> set preferred
                          in if preferred_candidates \<noteq> {} then preferred_candidates
                             else candidate_providers))
             in case list_of candidate_providers of
                  [] \<Rightarrow> Inl IndexError
                | first # _ \<Rightarrow> Inr (Some first)))"

section \<open>The pipeline (pipeline.py)\<close>

text \<open>
  Modelled from the spec: the base class \<open>ProcessingError\<close> and the type \<open>Result\<close> come
  from the package \<open>core\<close>, which is not among the sources. Every error carries an
  \<open>error_type\<close> tag and a \<open>message\<close>; \<open>component\<close> is the third field the constructor
  calls of pipeline.py set. The errors of the three stages extend this record. A
  \<open>Result\<close> is a sum: \<open>Inl\<close> the error, \<open>Inr\<close> the value.
\<close>

record ProcessingError =
  error_type :: pystr
  message :: pystr
  component :: pystr

type_synonym ('x, 'a) stage_result = "('x ProcessingError_scheme + 'a) outcome"

text \<open>\<open>class PipelineError(ProcessingError)\<close>.\<close>

record 'x PipelineError = ProcessingError +
  failed_stage :: pystr
  pipeline_context :: "pystr \<rightharpoonup> pystr"
  stage_errors :: "'x ProcessingError_scheme list"

text \<open>
  \<open>class PipelineResult\<close>. Points in time are integers (a clock reading); the event and
  the processing context are types of other modules and are type parameters.
\<close>

record ('ev, 'x, 'pc) PipelineResult =
  event :: "'ev option"
  success :: bool
  error :: "'x PipelineError option"
  total_processing_time_ms :: int
  stage_timings :: "pystr \<rightharpoonup> int"
  stages_completed :: "pystr list"
  processing_context :: "'pc option"
  pipeline_id :: pystr
  started_at :: int
  completed_at :: "int option"

text \<open>
  \<open>PipelineResult.mark_completed\<close>. \<open>utcnow\<close> is the clock reading; \<open>elapsed_ms\<close> stands
  for \<open>int((completed_at - started_at).total_seconds() * 1000)\<close>, a floating-point
  computation that is not modelled.
\<close>

definition mark_completed ::
  "int \<Rightarrow> int \<Rightarrow> ('ev, 'x, 'pc) PipelineResult \<Rightarrow> ('ev, 'x, 'pc) PipelineResult" where
  "mark_completed utcnow elapsed_ms self =
     self\<lparr>completed_at := Some utcnow, total_processing_time_ms := elapsed_ms\<rparr>"

text \<open>\<open>InputPipeline.create_pipeline_result\<close>; the fields not passed take their defaults.\<close>

definition create_pipeline_result :: "int \<Rightarrow> pystr \<Rightarrow> ('ev, 'x, 'pc) PipelineResult" where
  "create_pipeline_result utcnow pipeline_id' =
     \<lparr>event = None, success = False, error = None, total_processing_time_ms = 0,
      stage_timings = Map.empty, stages_completed = [], processing_context = None,
      pipeline_id = pipeline_id', started_at = utcnow, completed_at = None\<rparr>"

text \<open>
  The three stage helpers. Each takes the collaborator's method (\<open>authenticate\<close>,
  \<open>validate\<close>, \<open>process\<close> of the processor) as its first argument and the elapsed
  milliseconds \<open>stage_time\<close>, which stand for \<open>int((time.time() - stage_start) * 1000)\<close>.
  The \<open>result\<close> object is mutated in place in the source; the model returns its state
  after the call, next to what the helper itself does: it returns a \<open>Result\<close>, or an
  exception leaves it. The \<open>Raised\<close> branch is the \<open>except Exception\<close> clause. There is no
  \<open>finally\<close> clause: a \<open>BaseException\<close> of the collaborator leaves the helper before any
  timing is stored.
\<close>

definition execute_authentication_stage ::
  "('cred \<Rightarrow> 'ctx \<Rightarrow> ('x, 'auth) stage_result) \<Rightarrow> int \<Rightarrow> 'cred \<Rightarrow> 'ctx
     \<Rightarrow> ('ev, 'x, 'pc) PipelineResult
     \<Rightarrow> ('x PipelineError + 'auth) outcome \<times> ('ev, 'x, 'pc) PipelineResult" where
  "execute_authentication_stage authenticate stage_time credentials request_context result =
     (case authenticate credentials request_context of
        Returned auth_result \<Rightarrow>
          (let result = result\<lparr>stage_timings :=
                 (stage_timings result)(py ''authentication'' \<mapsto> stage_time)\<rparr>
           in case auth_result of
                Inr auth_context \<Rightarrow>
                  (Returned (Inr auth_context),
                   result\<lparr>stages_completed := stages_completed result @ [py ''authentication'']\<rparr>)
              | Inl auth_error \<Rightarrow>
                  (Returned (Inl \<lparr>error_type = py ''pipeline_error'',
                        message = py ''Authentication failed: '' @ message auth_error,
                        component = py ''InputPipeline'',
                        failed_stage = py ''authentication'',
                        pipeline_context = [py ''pipeline_id'' \<mapsto> pipeline_id result],
                        stage_errors = [auth_error]\<rparr>),
                   result))
      | Raised e \<Rightarrow>
          (let result = result\<lparr>stage_timings :=
                 (stage_timings result)(py ''authentication'' \<mapsto> stage_time)\<rparr>
           in (Returned (Inl \<lparr>error_type = py ''pipeline_error'',
                     message = py ''Authentication stage failed: '' @ e,
                     component = py ''InputPipeline'',
                     failed_stage = py ''authentication'',
                     pipeline_context = [py ''pipeline_id'' \<mapsto> pipeline_id result,
                                         py ''exception'' \<mapsto> e],
                     stage_errors = []\<rparr>),
               result))
      | RaisedBase e \<Rightarrow> (RaisedBase e, result))"

definition execute_validation_stage ::
  "('raw \<Rightarrow> 'auth \<Rightarrow> ('x, 'vi) stage_result) \<Rightarrow> int \<Rightarrow> 'raw \<Rightarrow> 'auth
     \<Rightarrow> ('ev, 'x, 'pc) PipelineResult
     \<Rightarrow> ('x PipelineError + 'vi) outcome \<times> ('ev, 'x, 'pc) PipelineResult" where
  "execute_validation_stage validate stage_time raw_input auth_context result =
     (case validate raw_input auth_context of
        Returned validation_result \<Rightarrow>
          (let result = result\<lparr>stage_timings :=
                 (stage_timings result)(py ''validation'' \<mapsto> stage_time)\<rparr>
           in case validation_result of
                Inr validated_input \<Rightarrow>
                  (Returned (Inr validated_input),
                   result\<lparr>stages_completed := stages_completed result @ [py ''validation'']\<rparr>)
              | Inl validation_error \<Rightarrow>
                  (Returned (Inl \<lparr>error_type = py ''pipeline_error'',
                        message = py ''Validation failed: '' @ message validation_error,
                        component = py ''InputPipeline'',
                        failed_stage = py ''validation'',
                        pipeline_context = [py ''pipeline_id'' \<mapsto> pipeline_id result],
                        stage_errors = [validation_error]\<rparr>),
                   result))
      | Raised e \<Rightarrow>
          (let result = result\<lparr>stage_timings :=
                 (stage_timings result)(py ''validation'' \<mapsto> stage_time)\<rparr>
           in (Returned (Inl \<lparr>error_type = py ''pipeline_error'',
                     message = py ''Validation stage failed: '' @ e,
                     component = py ''InputPipeline'',
                     failed_stage = py ''validation'',
                     pipeline_context = [py ''pipeline_id'' \<mapsto> pipeline_id result,
                                         py ''exception'' \<mapsto> e],
                     stage_errors = []\<rparr>),
               result))
      | RaisedBase e \<Rightarrow> (RaisedBase e, result))"

definition execute_processing_stage ::
  "('vi \<Rightarrow> 'auth \<Rightarrow> ('x, 'ev) stage_result) \<Rightarrow> int \<Rightarrow> 'vi \<Rightarrow> 'auth
     \<Rightarrow> ('ev, 'x, 'pc) PipelineResult
     \<Rightarrow> ('x PipelineError + 'ev) outcome \<times> ('ev, 'x, 'pc) PipelineResult" where
  "execute_processing_stage process_input stage_time validated_input auth_context result =
     (case process_input validated_input auth_context of
        Returned processing_result \<Rightarrow>
          (let result = result\<lparr>stage_timings :=
                 (stage_timings result)(py ''processing'' \<mapsto> stage_time)\<rparr>
           in case processing_result of
                Inr janus_event \<Rightarrow>
                  (Returned (Inr janus_event),
                   result\<lparr>stages_completed := stages_completed result @ [py ''processing'']\<rparr>)
              | Inl processing_error' \<Rightarrow>
                  (Returned (Inl \<lparr>error_type = py ''pipeline_error'',
                        message = py ''Processing failed: '' @ message processing_error',
                        component = py ''InputPipeline'',
                        failed_stage = py ''processing'',
                        pipeline_context = [py ''pipeline_id'' \<mapsto> pipeline_id result],
                        stage_errors = [processing_error']\<rparr>),
                   result))
      | Raised e \<Rightarrow>
          (let result = result\<lparr>stage_timings :=
                 (stage_timings result)(py ''processing'' \<mapsto> stage_time)\<rparr>
           in (Returned (Inl \<lparr>error_type = py ''pipeline_error'',
                     message = py ''Processing stage failed: '' @ e,
                     component = py ''InputPipeline'',
                     failed_stage = py ''processing'',
                     pipeline_context = [py ''pipeline_id'' \<mapsto> pipeline_id result,
                                         py ''exception'' \<mapsto> e],
                     stage_errors = []\<rparr>),
               result))
      | RaisedBase e \<Rightarrow> (RaisedBase e, result))"

text \<open>
  The readings of the clock during one run of the pipeline: the two points in time, the
  elapsed milliseconds of each stage and of the whole run.
\<close>

record clock =
  t_started :: int
  authentication_ms :: int
  validation_ms :: int
  processing_ms :: int
  t_completed :: int
  total_ms :: int

text \<open>
  Modelled from the spec: \<open>InputPipeline.process\<close> is abstract in pipeline.py and no
  implementation is among the sources. Following section 4.6 of the specification, it
  runs the three stages in the fixed order through the helpers above, stops at the first
  stage that fails and stores its \<open>PipelineError\<close>, stores the event and sets \<open>success\<close>
  when all three succeed, and finalizes every run that a stage ends with
  \<open>mark_completed\<close>. The specification names no handler around the helpers, so an
  exception that leaves a helper leaves the run.
\<close>

definition process ::
  "('cred \<Rightarrow> 'ctx \<Rightarrow> ('x, 'auth) stage_result)
     \<Rightarrow> ('raw \<Rightarrow> 'auth \<Rightarrow> ('x, 'vi) stage_result)
     \<Rightarrow> ('vi \<Rightarrow> 'auth \<Rightarrow> ('x, 'ev) stage_result)
     \<Rightarrow> clock \<Rightarrow> pystr \<Rightarrow> 'raw \<Rightarrow> 'cred \<Rightarrow> 'ctx
     \<Rightarrow> ('ev, 'x, 'pc) PipelineResult outcome" where
  "process authenticate validate process_input clk pipeline_id' raw_input credentials
      request_context =
     (let result = create_pipeline_result (t_started clk) pipeline_id'
      in case execute_authentication_stage authenticate (authentication_ms clk) credentials
                request_context result of
           (Raised e, result) \<Rightarrow> Raised e
         | (RaisedBase e, result) \<Rightarrow> RaisedBase e
         | (Returned (Inl pipeline_error), result) \<Rightarrow>
             Returned (mark_completed (t_completed clk) (total_ms clk)
               (result\<lparr>error := Some pipeline_error\<rparr>))
         | (Returned (Inr auth_context), result) \<Rightarrow>
             (case execute_validation_stage validate (validation_ms clk) raw_input
                     auth_context result of
                (Raised e, result) \<Rightarrow> Raised e
              | (RaisedBase e, result) \<Rightarrow> RaisedBase e
              | (Returned (Inl pipeline_error), result) \<Rightarrow>
                  Returned (mark_completed (t_completed clk) (total_ms clk)
                    (result\<lparr>error := Some pipeline_error\<rparr>))
              | (Returned (Inr validated_input), result) \<Rightarrow>
                  (case execute_processing_stage process_input (processing_ms clk)
                          validated_input auth_context result of
                     (Raised e, result) \<Rightarrow> Raised e
                   | (RaisedBase e, result) \<Rightarrow> RaisedBase e
                   | (Returned (Inl pipeline_error), result) \<Rightarrow>
                       Returned (mark_completed (t_completed clk) (total_ms clk)
                         (result\<lparr>error := Some pipeline_error\<rparr>))
                   | (Returned (Inr janus_event), result) \<Rightarrow>
                       Returned (mark_completed (t_completed clk) (total_ms clk)
                         (result\<lparr>event := Some janus_event, success := True\<rparr>)))))"

section \<open>Event identifiers (models.py, processing.py)\<close>

text \<open>\<open>class AuthContext\<close> and \<open>class ProcessingContext\<close> of models.py.\<close>

record AuthContext =
  user_id :: pystr
  source_type :: pystr
  source_id :: pystr
  granted_permissions :: "pystr list"
  session_id :: "pystr option"
  authenticated_at :: int
  expires_at :: "int option"
  auth_metadata :: "pystr \<rightharpoonup> pyval"

record 'vi ProcessingContext =
  auth_context :: AuthContext
  validated_input :: 'vi
  pipeline_start_time :: int
  processing_steps :: "pystr list"
  target_event_type :: pystr
  stream_id :: "pystr option"
  thread_id :: "pystr option"
  adapter_context :: "pystr \<rightharpoonup> pyval"

text \<open>
  \<open>EventBuilder.generate_event_ids\<close>. The two calls of \<open>str(uuid4())\<close> give fresh random
  identifiers; their values are the first two arguments. The returned dictionary has the
  keys \<open>event_id\<close>, \<open>stream_id\<close> and \<open>trace_id\<close>.
\<close>

definition generate_event_ids ::
  "pystr \<Rightarrow> pystr \<Rightarrow> 'vi ProcessingContext \<Rightarrow> (pystr \<rightharpoonup> pystr)" where
  "generate_event_ids uuid4_first uuid4_second processing_context' =
     (let event_id = uuid4_first;
          stream_id' =
            py_or (stream_id processing_context')
              (py_or (session_id (auth_context processing_context'))
                 (py ''stream_'' @ take 8 event_id));
          trace_id = uuid4_second
      in [py ''event_id'' \<mapsto> event_id, py ''stream_id'' \<mapsto> stream_id',
          py ''trace_id'' \<mapsto> trace_id])"

section \<open>The specification's wording\<close>

text \<open>
  The expanded set of the specification: every wildcard entry \<open>X.*\<close> of the credential
  permissions is replaced by the user permissions with prefix \<open>X.\<close>, every other entry is
  kept. The specification's result is this set intersected with the user permissions,
  sorted and free of duplicates.
\<close>

definition spec_expanded_set :: "pystr list \<Rightarrow> pystr list \<Rightarrow> pystr set" where
  "spec_expanded_set credential_permissions user_permissions =
     {p. \<exists>X. X @ py ''.*'' \<in> set credential_permissions \<and> p \<in> set user_permissions
              \<and> prefix (X @ py ''.'') p}
     \<union> {c. c \<in> set credential_permissions \<and> \<not> (\<exists>X. c = X @ py ''.*'')}"

definition spec_final_permissions :: "pystr list \<Rightarrow> pystr list \<Rightarrow> pystr list" where
  "spec_final_permissions credential_permissions user_permissions =
     sorted_list_of_set
       (spec_expanded_set credential_permissions user_permissions \<inter> set user_permissions)"

text \<open>
  The content-type heuristic as the specification lists it, one rule after the other: a
  leading \<open>/\<close> or \<open>!\<close> gives \<open>command\<close>; an \<open>attachments\<close> key gives
  \<open>text_with_attachments\<close>; a \<open>file\<close> key gives \<open>file_upload\<close>; else \<open>text\<close> if there is a
  \<open>text\<close> key, else \<open>unknown\<close>.
\<close>

definition spec_content_type :: "(pystr \<rightharpoonup> pyval) \<Rightarrow> pystr" where
  "spec_content_type m =
     (if (case m (py ''text'') of
            Some (PStr s) \<Rightarrow> prefix (py ''/'') s \<or> prefix (py ''!'') s
          | _ \<Rightarrow> False) then py ''command''
      else if m (py ''attachments'') \<noteq> None then py ''text_with_attachments''
      else if m (py ''file'') \<noteq> None then py ''file_upload''
      else if m (py ''text'') \<noteq> None then py ''text''
      else py ''unknown'')"

text \<open>
  The UTF-8 byte length of a string: the sum of the widths of its code points. A string
  can be encoded when it holds no surrogate.
\<close>

definition utf8_width :: "nat \<Rightarrow> nat" where
  "utf8_width c = (if c < 0x80 then 1 else if c < 0x800 then 2 else if c < 0x10000 then 3 else 4)"

definition utf8_byte_length :: "pystr \<Rightarrow> nat" where
  "utf8_byte_length s = sum_list (map utf8_width s)"

definition encodable :: "pystr \<Rightarrow> bool" where
  "encodable s = list_all (\<lambda>c. \<not> (0xD800 \<le> c \<and> c \<le> 0xDFFF)) s"

text \<open>
  The providers that support every required capability (for a non-empty list of
  requirements), and the preferred providers as a set.
\<close>

definition candidates :: "(pystr \<Rightarrow> pystr list) \<Rightarrow> pystr list \<Rightarrow> pystr set" where
  "candidates find_providers_with_capability required_capabilities =
     (\<Inter>c\<in>set required_capabilities. set (find_providers_with_capability c))"

definition preferred_set :: "pystr list option \<Rightarrow> pystr set" where
  "preferred_set preferred_providers =
     (case preferred_providers of None \<Rightarrow> {} | Some ps \<Rightarrow> set ps)"

text \<open>
  A stage succeeds when its collaborator returns a success \<open>Result\<close>. It fails when the
  collaborator returns an error \<open>Result\<close> or raises an exception of class \<open>Exception\<close>. A
  \<open>BaseException\<close> is neither: it ends the call without an outcome of the stage.
\<close>

definition stage_succeeded :: "('x, 'a) stage_result \<Rightarrow> bool" where
  "stage_succeeded r = (case r of Returned (Inr _) \<Rightarrow> True | _ \<Rightarrow> False)"

definition stage_failed :: "('x, 'a) stage_result \<Rightarrow> bool" where
  "stage_failed r = (case r of Returned (Inl _) \<Rightarrow> True | Raised _ \<Rightarrow> True | _ \<Rightarrow> False)"

text \<open>
  The precedence of the stream identifier as the specification states it, with "set"
  read as "not \<open>None\<close>"; and the test Python's \<open>or\<close> makes instead, which also skips the
  empty string.
\<close>

definition spec_stream_id :: "'vi ProcessingContext \<Rightarrow> pystr \<Rightarrow> pystr" where
  "spec_stream_id pc event_id =
     (case stream_id pc of
        Some s \<Rightarrow> s
      | None \<Rightarrow>
          (case session_id (auth_context pc) of
             Some s \<Rightarrow> s
           | None \<Rightarrow> py ''stream_'' @ take 8 event_id))"

definition unset :: "pystr option \<Rightarrow> bool" where
  "unset a = (case a of None \<Rightarrow> True | Some s \<Rightarrow> s = [])"

section \<open>Properties of permission resolution\<close>

lemma py_dot_star_length: "length (py ''.*'') = 2"
  by (simp add: py_def)

lemma endswith_iff: "endswith w (py ''.*'') \<longleftrightarrow> (\<exists>X. w = X @ py ''.*'')"
  by (auto simp: endswith_def suffix_def)

lemma strip_wildcard: "take (length (X @ py ''.*'') - 2) (X @ py ''.*'') = X"
  by (simp add: py_dot_star_length)

lemma set_expand_loop:
  "set (expand_loop ws ts acc) =
     set acc \<union> {p. \<exists>w. w \<in> set ws \<and> endswith w (py ''.*'') \<and> p \<in> set ts
                   \<and> startswith p (take (length w - 2) w @ py ''.'')}
             \<union> {w. w \<in> set ws \<and> \<not> endswith w (py ''.*'')}"
proof (induction ws arbitrary: acc)
  case Nil
  then show ?case by simp
next
  case (Cons w ws)
  show ?case
  proof (cases "endswith w (py ''.*'')")
    case True
    then show ?thesis using Cons.IH by (auto simp: Let_def)
  next
    case False
    then show ?thesis using Cons.IH by (auto simp: Let_def)
  qed
qed

lemma wildcard_part_eq:
  "{p. \<exists>w. w \<in> set cred \<and> endswith w (py ''.*'') \<and> p \<in> set user
            \<and> startswith p (take (length w - 2) w @ py ''.'')}
   = {p. \<exists>X. X @ py ''.*'' \<in> set cred \<and> p \<in> set user \<and> prefix (X @ py ''.'') p}"
  (is "?L = ?R")
proof
  show "?L \<subseteq> ?R"
  proof
    fix p assume "p \<in> ?L"
    then obtain w where w: "w \<in> set cred" "endswith w (py ''.*'')" "p \<in> set user"
      "startswith p (take (length w - 2) w @ py ''.'')" by blast
    from w(2) obtain X where X: "w = X @ py ''.*''" by (auto simp: endswith_iff)
    have "take (length w - 2) w = X" unfolding X by (rule strip_wildcard)
    with w(4) have "prefix (X @ py ''.'') p" by (simp only: startswith_def)
    moreover have "X @ py ''.*'' \<in> set cred" using w(1) X by (simp only:)
    ultimately show "p \<in> ?R" using w(3) by blast
  qed
next
  show "?R \<subseteq> ?L"
  proof
    fix p assume "p \<in> ?R"
    then obtain X where X: "X @ py ''.*'' \<in> set cred" "p \<in> set user"
      "prefix (X @ py ''.'') p" by blast
    have "endswith (X @ py ''.*'') (py ''.*'')" by (auto simp: endswith_iff)
    moreover have "startswith p (take (length (X @ py ''.*'') - 2) (X @ py ''.*'') @ py ''.'')"
      using X(3) by (simp only: strip_wildcard startswith_def)
    ultimately show "p \<in> ?L" using X(1,2) by blast
  qed
qed

lemma set_expand_wildcards:
  "set (expand_wildcards cred user) = spec_expanded_set cred user"
proof -
  have b: "{w. w \<in> set cred \<and> \<not> endswith w (py ''.*'')}
         = {c. c \<in> set cred \<and> \<not> (\<exists>X. c = X @ py ''.*'')}"
    by (simp add: endswith_iff)
  show ?thesis
    unfolding expand_wildcards_def spec_expanded_set_def set_remdups set_expand_loop
      wildcard_part_eq b by simp
qed

lemma cfp_eq:
  "compute_final_permissions cred user =
     sorted_list_of_set (set (expand_wildcards cred user) \<inter> set user)"
  by (simp add: compute_final_permissions_def Let_def)

lemma set_cfp:
  "set (compute_final_permissions cred user) = spec_expanded_set cred user \<inter> set user"
  by (simp add: cfp_eq set_expand_wildcards)

lemma spec_expanded_set_cong:
  "set A = set A' \<Longrightarrow> set B = set B' \<Longrightarrow> spec_expanded_set A B = spec_expanded_set A' B'"
  by (simp add: spec_expanded_set_def)

lemma cfp_example:
  "compute_final_permissions [py ''chat'', py ''tools.*'']
      [py ''chat'', py ''tools.calculator'', py ''memory.read'']
   = [py ''chat'', py ''tools.calculator'']"
  by code_simp

text \<open>
  C1. For all credential and user permission lists, \<open>compute_final_permissions\<close> returns
  the result of the specification's algorithm: wildcard entries \<open>X.*\<close> expanded into the
  user permissions with prefix \<open>X.\<close>, other entries kept, the union intersected with the
  user permissions, sorted lexicographically and without duplicates. On
  \<open>["chat", "tools.*"]\<close> and \<open>["chat", "tools.calculator", "memory.read"]\<close> it returns
  \<open>["chat", "tools.calculator"]\<close>.
\<close>

theorem compute_final_permissions_refines_spec:
  "compute_final_permissions cred user = spec_final_permissions cred user
   \<and> sorted (compute_final_permissions cred user)
   \<and> distinct (compute_final_permissions cred user)
   \<and> compute_final_permissions [py ''chat'', py ''tools.*'']
        [py ''chat'', py ''tools.calculator'', py ''memory.read'']
      = [py ''chat'', py ''tools.calculator'']"
  using cfp_example
  by (simp add: cfp_eq spec_final_permissions_def set_expand_wildcards)

text \<open>
  C2. Every element of the list \<open>compute_final_permissions\<close> returns is a member of the
  user permissions and of the wildcard expansion of the credential permissions.
\<close>

theorem granted_permissions_subset:
  "\<forall>p \<in> set (compute_final_permissions cred user).
      p \<in> set user \<and> p \<in> spec_expanded_set cred user \<and> p \<in> set (expand_wildcards cred user)"
  by (simp add: set_cfp set_expand_wildcards)

theorem granted_permissions_subset_witness:
  "py ''tools.calculator'' \<in> set [py ''chat'', py ''tools.calculator'', py ''memory.read'']
   \<and> py ''tools.calculator'' \<in> spec_expanded_set [py ''chat'', py ''tools.*'']
        [py ''chat'', py ''tools.calculator'', py ''memory.read'']
   \<and> py ''tools.calculator'' \<in> set (expand_wildcards [py ''chat'', py ''tools.*'']
        [py ''chat'', py ''tools.calculator'', py ''memory.read''])"
proof -
  have "py ''tools.calculator'' \<in> set (compute_final_permissions [py ''chat'', py ''tools.*'']
      [py ''chat'', py ''tools.calculator'', py ''memory.read''])"
    unfolding cfp_example by simp
  from granted_permissions_subset [THEN bspec, OF this] show ?thesis .
qed

text \<open>
  C6. The list \<open>compute_final_permissions A B\<close> depends only on the sets of elements of
  \<open>A\<close> and of \<open>B\<close> (reordering or repeating entries of either changes nothing), and it is
  sorted lexicographically and has no duplicates.
\<close>

theorem compute_final_permissions_sets_only:
  "(set A = set A' \<and> set B = set B'
      \<longrightarrow> compute_final_permissions A B = compute_final_permissions A' B')
   \<and> sorted (compute_final_permissions A B)
   \<and> distinct (compute_final_permissions A B)"
proof -
  have "compute_final_permissions A B = compute_final_permissions A' B'"
    if "set A = set A'" "set B = set B'"
    using that spec_expanded_set_cong [OF that]
    by (simp add: cfp_eq set_expand_wildcards)
  then show ?thesis by (simp add: cfp_eq)
qed

theorem compute_final_permissions_sets_only_witness:
  "compute_final_permissions [py ''tools.*'', py ''chat'', py ''chat'']
      [py ''tools.time'', py ''chat'', py ''tools.echo'']
   = compute_final_permissions [py ''chat'', py ''tools.*'']
      [py ''chat'', py ''tools.echo'', py ''tools.echo'', py ''tools.time'']
   \<and> sorted (compute_final_permissions [py ''tools.*'', py ''chat'', py ''chat'']
      [py ''tools.time'', py ''chat'', py ''tools.echo''])
   \<and> distinct (compute_final_permissions [py ''tools.*'', py ''chat'', py ''chat'']
      [py ''tools.time'', py ''chat'', py ''tools.echo''])"
proof -
  have a: "set [py ''tools.*'', py ''chat'', py ''chat''] = set [py ''chat'', py ''tools.*'']"
    by auto
  have b: "set [py ''tools.time'', py ''chat'', py ''tools.echo'']
         = set [py ''chat'', py ''tools.echo'', py ''tools.echo'', py ''tools.time'']"
    by auto
  show ?thesis
    using compute_final_permissions_sets_only
      [of "[py ''tools.*'', py ''chat'', py ''chat'']" "[py ''chat'', py ''tools.*'']"
          "[py ''tools.time'', py ''chat'', py ''tools.echo'']"
          "[py ''chat'', py ''tools.echo'', py ''tools.echo'', py ''tools.time'']"] a b
    by blast
qed

lemma not_prefix_self_dot: "\<not> prefix (X @ py ''.'') X"
  by (auto simp: prefix_def py_def)

lemma own_expansion:
  "set (expand_wildcards [X @ py ''.*''] user) = {p \<in> set user. prefix (X @ py ''.'') p}"
  by (auto simp: set_expand_wildcards spec_expanded_set_def)

text \<open>
  C10, as amended. When \<open>X.*\<close> is among the credential permissions: the expansion of
  \<open>X.*\<close> alone never contains the bare \<open>X\<close>; \<open>X\<close> is in the result exactly when it is a
  user permission and either a non-wildcard credential entry or matched by another
  wildcard entry \<open>Y.*\<close> (with \<open>Y.\<close> a prefix of \<open>X\<close>); and the string \<open>X.*\<close> itself is in the
  result exactly when it is a user permission, since it has the prefix \<open>X.\<close>.
\<close>

theorem wildcard_bare_permission:
  assumes "X @ py ''.*'' \<in> set cred"
  shows "X \<notin> set (expand_wildcards [X @ py ''.*''] user)
    \<and> (X \<in> set (compute_final_permissions cred user) \<longleftrightarrow>
         X \<in> set user \<and>
         ((X \<in> set cred \<and> \<not> endswith X (py ''.*''))
          \<or> (\<exists>Y. Y @ py ''.*'' \<in> set cred \<and> Y \<noteq> X \<and> prefix (Y @ py ''.'') X)))
    \<and> (X @ py ''.*'' \<in> set (compute_final_permissions cred user)
         \<longleftrightarrow> X @ py ''.*'' \<in> set user)"
proof (intro conjI)
  show "X \<notin> set (expand_wildcards [X @ py ''.*''] user)"
    using not_prefix_self_dot [of X] by (simp add: own_expansion)
next
  show "X \<in> set (compute_final_permissions cred user) \<longleftrightarrow>
         X \<in> set user \<and>
         ((X \<in> set cred \<and> \<not> endswith X (py ''.*''))
          \<or> (\<exists>Y. Y @ py ''.*'' \<in> set cred \<and> Y \<noteq> X \<and> prefix (Y @ py ''.'') X))"
    using not_prefix_self_dot
    by (auto simp: set_cfp spec_expanded_set_def endswith_iff)
next
  have "prefix (X @ py ''.'') (X @ py ''.*'')" by (simp add: py_def)
  with assms show "X @ py ''.*'' \<in> set (compute_final_permissions cred user)
      \<longleftrightarrow> X @ py ''.*'' \<in> set user"
    by (auto simp: set_cfp spec_expanded_set_def)
qed

theorem wildcard_bare_permission_witness:
  "py ''a.b'' \<notin> set (expand_wildcards [py ''a.b'' @ py ''.*''] [py ''a.b'', py ''a.b.c''])
   \<and> (py ''a.b'' \<in> set (compute_final_permissions [py ''a.*'', py ''a.b'' @ py ''.*'']
          [py ''a.b'', py ''a.b.c'']) \<longleftrightarrow>
        py ''a.b'' \<in> set [py ''a.b'', py ''a.b.c''] \<and>
        ((py ''a.b'' \<in> set [py ''a.*'', py ''a.b'' @ py ''.*'']
            \<and> \<not> endswith (py ''a.b'') (py ''.*''))
         \<or> (\<exists>Y. Y @ py ''.*'' \<in> set [py ''a.*'', py ''a.b'' @ py ''.*''] \<and> Y \<noteq> py ''a.b''
               \<and> prefix (Y @ py ''.'') (py ''a.b''))))
   \<and> (py ''a.b'' @ py ''.*'' \<in> set (compute_final_permissions
          [py ''a.*'', py ''a.b'' @ py ''.*''] [py ''a.b'', py ''a.b.c''])
        \<longleftrightarrow> py ''a.b'' @ py ''.*'' \<in> set [py ''a.b'', py ''a.b.c''])"
proof -
  have "py ''a.b'' @ py ''.*'' \<in> set [py ''a.*'', py ''a.b'' @ py ''.*'']" by simp
  from wildcard_bare_permission [OF this] show ?thesis .
qed

text \<open>
  The claim C10 as stated fails twice. With the credential permissions
  \<open>["a.*", "a.b.*"]\<close> and the user permission \<open>"a.b"\<close>, the bare \<open>a.b\<close> is granted through
  the other wildcard \<open>a.*\<close>, although it is no entry of the credential permissions. And
  the expansion of \<open>tools.*\<close> against a user who holds \<open>"tools.*"\<close> contributes the
  wildcard string itself.
\<close>

theorem wildcard_bare_permission_counterexample:
  "\<not> (\<forall>cred user X. X @ py ''.*'' \<in> set cred \<longrightarrow>
        (X \<in> set (compute_final_permissions cred user) \<longrightarrow>
           X \<in> set cred \<and> \<not> endswith X (py ''.*'') \<and> X \<in> set user))
   \<and> \<not> (\<forall>user X. X @ py ''.*'' \<notin> set (expand_wildcards [X @ py ''.*''] user))"
proof (intro conjI notI)
  assume a: "\<forall>cred user X. X @ py ''.*'' \<in> set cred \<longrightarrow>
        (X \<in> set (compute_final_permissions cred user) \<longrightarrow>
           X \<in> set cred \<and> \<not> endswith X (py ''.*'') \<and> X \<in> set user)"
  have e: "compute_final_permissions [py ''a.*'', py ''a.b'' @ py ''.*''] [py ''a.b'']
           = [py ''a.b'']"
    by code_simp
  have "py ''a.b'' \<in> set [py ''a.*'', py ''a.b'' @ py ''.*'']"
    using a [rule_format, of "py ''a.b''" "[py ''a.*'', py ''a.b'' @ py ''.*'']" "[py ''a.b'']"]
    unfolding e by simp
  then show False by (simp add: py_def)
next
  assume a: "\<forall>user X. X @ py ''.*'' \<notin> set (expand_wildcards [X @ py ''.*''] user)"
  have "py ''tools'' @ py ''.*'' \<in> set (expand_wildcards [py ''tools'' @ py ''.*'']
          [py ''tools'' @ py ''.*''])"
    unfolding own_expansion by (simp add: py_def)
  with a show False by blast
qed

section \<open>Properties of content type detection and size computation\<close>

lemma content_keys_distinct:
  "py ''text'' \<noteq> py ''file''" "py ''text'' \<noteq> py ''attachments''"
  "py ''file'' \<noteq> py ''attachments''" "py ''file'' \<noteq> py ''text''"
  "py ''attachments'' \<noteq> py ''text''" "py ''attachments'' \<noteq> py ''file''"
  by (simp_all add: py_def)

lemma detect_text:
  "m (py ''text'') = Some (PStr s) \<Longrightarrow>
   detect_content_type m =
     Inr (if startswith s (py ''/'') \<or> startswith s (py ''!'') then py ''command''
          else if m (py ''attachments'') \<noteq> None then py ''text_with_attachments''
          else py ''text'')"
  by (simp add: detect_content_type_def)

lemma detect_no_text:
  "m (py ''text'') = None \<Longrightarrow>
   detect_content_type m =
     Inr (if m (py ''file'') \<noteq> None then py ''file_upload'' else py ''unknown'')"
  by (simp add: detect_content_type_def)

lemma content_types_distinct:
  "py ''text'' \<noteq> py ''file_upload''" "py ''unknown'' \<noteq> py ''text_with_attachments''"
  by (simp_all add: py_def)

text \<open>
  C5, as amended. With a string under the key \<open>text\<close>, the content type is \<open>command\<close> for
  a leading \<open>/\<close> or \<open>!\<close>, else \<open>text_with_attachments\<close> when there is an \<open>attachments\<close> key,
  else \<open>text\<close>; a \<open>file\<close> key plays no part then. Without a \<open>text\<close> key it is
  \<open>file_upload\<close> when there is a \<open>file\<close> key, else \<open>unknown\<close>; an \<open>attachments\<close> key plays no
  part then. So \<open>{"text": "/help"}\<close> gives \<open>command\<close>, \<open>{"text": "hello"}\<close> gives \<open>text\<close>, and a
  mapping whose only key is \<open>file\<close> gives \<open>file_upload\<close>. The result is the one of the
  specification's list of rules whenever a string \<open>text\<close> comes with no \<open>file\<close> key, with
  an \<open>attachments\<close> key or with a command prefix, and whenever neither \<open>text\<close> nor
  \<open>attachments\<close> is a key.
\<close>

theorem detect_content_type_cases:
  "(m (py ''text'') = Some (PStr s) \<longrightarrow>
      detect_content_type m =
        Inr (if startswith s (py ''/'') \<or> startswith s (py ''!'') then py ''command''
             else if m (py ''attachments'') \<noteq> None then py ''text_with_attachments''
             else py ''text''))
   \<and> (m (py ''text'') = None \<longrightarrow>
      detect_content_type m =
        Inr (if m (py ''file'') \<noteq> None then py ''file_upload'' else py ''unknown''))
   \<and> detect_content_type [py ''text'' \<mapsto> PStr (py ''/help'')] = Inr (py ''command'')
   \<and> detect_content_type [py ''text'' \<mapsto> PStr (py ''hello'')] = Inr (py ''text'')
   \<and> detect_content_type [py ''file'' \<mapsto> v] = Inr (py ''file_upload'')
   \<and> (m (py ''text'') = Some (PStr s)
        \<and> (m (py ''file'') = None \<or> m (py ''attachments'') \<noteq> None
             \<or> startswith s (py ''/'') \<or> startswith s (py ''!''))
        \<longrightarrow> detect_content_type m = Inr (spec_content_type m))
   \<and> (m (py ''text'') = None \<and> m (py ''attachments'') = None
        \<longrightarrow> detect_content_type m = Inr (spec_content_type m))"
proof (intro conjI impI)
  show "detect_content_type [py ''text'' \<mapsto> PStr (py ''/help'')] = Inr (py ''command'')"
    by (simp add: detect_text startswith_def) (simp add: py_def)
  show "detect_content_type [py ''text'' \<mapsto> PStr (py ''hello'')] = Inr (py ''text'')"
    by (simp add: detect_text startswith_def content_keys_distinct) (simp add: py_def)
  show "detect_content_type [py ''file'' \<mapsto> v] = Inr (py ''file_upload'')"
    by (simp add: detect_no_text content_keys_distinct)
next
  assume "m (py ''text'') = Some (PStr s)"
  then show "detect_content_type m =
        Inr (if startswith s (py ''/'') \<or> startswith s (py ''!'') then py ''command''
             else if m (py ''attachments'') \<noteq> None then py ''text_with_attachments''
             else py ''text'')"
    by (rule detect_text)
next
  assume "m (py ''text'') = None"
  then show "detect_content_type m =
        Inr (if m (py ''file'') \<noteq> None then py ''file_upload'' else py ''unknown'')"
    by (rule detect_no_text)
next
  assume "m (py ''text'') = Some (PStr s)
        \<and> (m (py ''file'') = None \<or> m (py ''attachments'') \<noteq> None
             \<or> startswith s (py ''/'') \<or> startswith s (py ''!''))"
  then show "detect_content_type m = Inr (spec_content_type m)"
    by (auto simp: detect_text spec_content_type_def startswith_def)
next
  assume "m (py ''text'') = None \<and> m (py ''attachments'') = None"
  then show "detect_content_type m = Inr (spec_content_type m)"
    by (auto simp: detect_no_text spec_content_type_def)
qed

theorem detect_content_type_cases_witness:
  "detect_content_type [py ''text'' \<mapsto> PStr (py ''see the report''),
       py ''attachments'' \<mapsto> POther (py ''[1]'') (\<lambda>arg. Inl AttributeError)]
   = Inr (if startswith (py ''see the report'') (py ''/'')
             \<or> startswith (py ''see the report'') (py ''!'') then py ''command''
          else if [py ''text'' \<mapsto> PStr (py ''see the report''),
                   py ''attachments'' \<mapsto> POther (py ''[1]'') (\<lambda>arg. Inl AttributeError)] (py ''attachments'') \<noteq> None
            then py ''text_with_attachments''
          else py ''text'')"
proof -
  have "[py ''text'' \<mapsto> PStr (py ''see the report''),
         py ''attachments'' \<mapsto> POther (py ''[1]'') (\<lambda>arg. Inl AttributeError)] (py ''text'')
        = Some (PStr (py ''see the report''))"
    by (simp add: content_keys_distinct)
  from detect_content_type_cases
    [where m = "[py ''text'' \<mapsto> PStr (py ''see the report''),
                 py ''attachments'' \<mapsto> POther (py ''[1]'') (\<lambda>arg. Inl AttributeError)]"
       and s = "py ''see the report''", THEN conjunct1, rule_format, OF this]
  show ?thesis .
qed

text \<open>
  The claim C5 as stated fails: the specification's rules give \<open>file_upload\<close> for a
  mapping with the keys \<open>text\<close> and \<open>file\<close>, where the code answers \<open>text\<close>; and they give
  \<open>text_with_attachments\<close> for a mapping with the key \<open>attachments\<close> alone, where the code
  answers \<open>unknown\<close>.
\<close>

theorem detect_content_type_counterexample:
  "detect_content_type [py ''text'' \<mapsto> PStr (py ''hello''),
       py ''file'' \<mapsto> PStr (py ''report.pdf'')] = Inr (py ''text'')
   \<and> spec_content_type [py ''text'' \<mapsto> PStr (py ''hello''),
       py ''file'' \<mapsto> PStr (py ''report.pdf'')] = py ''file_upload''
   \<and> detect_content_type [py ''text'' \<mapsto> PStr (py ''hello''),
       py ''file'' \<mapsto> PStr (py ''report.pdf'')]
     \<noteq> Inr (spec_content_type [py ''text'' \<mapsto> PStr (py ''hello''),
       py ''file'' \<mapsto> PStr (py ''report.pdf'')])
   \<and> detect_content_type [py ''attachments'' \<mapsto> POther (py ''[1]'') (\<lambda>arg. Inl AttributeError)] = Inr (py ''unknown'')
   \<and> spec_content_type [py ''attachments'' \<mapsto> POther (py ''[1]'') (\<lambda>arg. Inl AttributeError)]
     = py ''text_with_attachments''"
proof -
  have h: "\<not> prefix (py ''/'') (py ''hello'')" "\<not> prefix (py ''!'') (py ''hello'')"
    by (simp_all add: py_def)
  have a: "detect_content_type [py ''text'' \<mapsto> PStr (py ''hello''),
       py ''file'' \<mapsto> PStr (py ''report.pdf'')] = Inr (py ''text'')"
    using h by (simp add: detect_content_type_def startswith_def content_keys_distinct)
  have b: "spec_content_type [py ''text'' \<mapsto> PStr (py ''hello''),
       py ''file'' \<mapsto> PStr (py ''report.pdf'')] = py ''file_upload''"
    using h by (simp add: spec_content_type_def content_keys_distinct)
  have c: "detect_content_type [py ''attachments'' \<mapsto> POther (py ''[1]'') (\<lambda>arg. Inl AttributeError)]
      = Inr (py ''unknown'')"
    using content_keys_distinct
    by (simp add: detect_content_type_def)
  have d: "spec_content_type [py ''attachments'' \<mapsto> POther (py ''[1]'') (\<lambda>arg. Inl AttributeError)]
     = py ''text_with_attachments''"
    using content_keys_distinct
    by (simp add: spec_content_type_def)
  show ?thesis unfolding a b c d using content_types_distinct by simp
qed

lemma utf8_encode_char_width:
  "\<not> (0xD800 \<le> c \<and> c \<le> 0xDFFF) \<Longrightarrow> \<exists>bs. utf8_encode_char c = Inr bs \<and> length bs = utf8_width c"
  by (simp add: utf8_encode_char_def utf8_width_def)

lemma utf8_encode_length:
  "encodable s \<Longrightarrow> \<exists>bs. utf8_encode s = Inr bs \<and> length bs = utf8_byte_length s"
proof (induction s)
  case Nil
  then show ?case by (simp add: utf8_byte_length_def)
next
  case (Cons c cs)
  then have c: "\<not> (0xD800 \<le> c \<and> c \<le> 0xDFFF)" and cs: "encodable cs"
    by (simp_all add: encodable_def)
  from utf8_encode_char_width [OF c] obtain bs where
    bs: "utf8_encode_char c = Inr bs" "length bs = utf8_width c" by blast
  from Cons.IH [OF cs] obtain rest where
    rest: "utf8_encode cs = Inr rest" "length rest = utf8_byte_length cs" by blast
  show ?case by (simp add: bs rest utf8_byte_length_def)
qed

lemma utf8_encode_unencodable:
  "\<not> encodable s \<Longrightarrow> utf8_encode s = Inl UnicodeEncodeError"
proof (induction s)
  case Nil
  then show ?case by (simp add: encodable_def)
next
  case (Cons c cs)
  show ?case
  proof (cases "0xD800 \<le> c \<and> c \<le> 0xDFFF")
    case True
    then show ?thesis by (simp add: utf8_encode_char_def)
  next
    case False
    with Cons.prems have "\<not> encodable cs" by (simp add: encodable_def)
    from Cons.IH [OF this] utf8_encode_char_width [OF False] show ?thesis by auto
  qed
qed

lemma ascii_byte_length:
  "\<forall>c \<in> set s. c < 0x80 \<Longrightarrow> encodable s \<and> utf8_byte_length s = length s"
  by (induction s) (auto simp: encodable_def utf8_byte_length_def utf8_width_def)

lemma size_of_encodable:
  "encodable s \<Longrightarrow> map_sum id length (utf8_encode s) = Inr (utf8_byte_length s)"
  using utf8_encode_length [of s] by auto

text \<open>
  C8. The input size is the UTF-8 byte length of a string input, which for a string of
  ASCII characters is its number of characters (10 for a string of 10); the length of a
  \<open>bytes\<close> buffer; for a mapping the byte length of the string \<open>json.dumps\<close> returns; and
  for any other value (a \<open>bytearray\<close> among them) the byte length of its string form.
  (A string that holds a surrogate has no UTF-8 encoding; the code raises on it.)
\<close>

theorem calculate_input_size_cases:
  "((\<forall>c \<in> set s. c < 0x80) \<longrightarrow> calculate_input_size json_dumps (PStr s) = Inr (length s))
   \<and> ((\<forall>c \<in> set s. c < 0x80) \<and> length s = 10
         \<longrightarrow> calculate_input_size json_dumps (PStr s) = Inr 10)
   \<and> (encodable s \<longrightarrow> calculate_input_size json_dumps (PStr s) = Inr (utf8_byte_length s))
   \<and> calculate_input_size json_dumps (PBytes b) = Inr (length b)
   \<and> (json_dumps d = Inr js \<and> encodable js
         \<longrightarrow> calculate_input_size json_dumps (PDict d) = Inr (utf8_byte_length js))
   \<and> (encodable str_form
         \<longrightarrow> calculate_input_size json_dumps (POther str_form startswith_method)
             = Inr (utf8_byte_length str_form))"
proof (intro conjI impI)
  assume a: "\<forall>c \<in> set s. c < 0x80"
  from ascii_byte_length [OF a] show "calculate_input_size json_dumps (PStr s) = Inr (length s)"
    by (simp add: calculate_input_size_def size_of_encodable)
next
  assume "(\<forall>c \<in> set s. c < 0x80) \<and> length s = 10"
  then have a: "\<forall>c \<in> set s. c < 0x80" and l: "length s = 10" by simp_all
  from ascii_byte_length [OF a] l show "calculate_input_size json_dumps (PStr s) = Inr 10"
    by (simp add: calculate_input_size_def size_of_encodable)
next
  assume "encodable s"
  then show "calculate_input_size json_dumps (PStr s) = Inr (utf8_byte_length s)"
    by (simp add: calculate_input_size_def size_of_encodable)
next
  show "calculate_input_size json_dumps (PBytes b) = Inr (length b)"
    by (simp add: calculate_input_size_def)
next
  assume "json_dumps d = Inr js \<and> encodable js"
  then show "calculate_input_size json_dumps (PDict d) = Inr (utf8_byte_length js)"
    by (simp add: calculate_input_size_def size_of_encodable)
next
  assume "encodable str_form"
  then show "calculate_input_size json_dumps (POther str_form startswith_method)
             = Inr (utf8_byte_length str_form)"
    by (simp add: calculate_input_size_def size_of_encodable)
qed

theorem calculate_input_size_cases_witness:
  "calculate_input_size (\<lambda>d. Inl JSONEncodeError) (PStr (py ''0123456789'')) = Inr 10
   \<and> calculate_input_size (\<lambda>d. Inl JSONEncodeError) (PStr [0x20AC, 0x41, 0x1F600, 0xE9])
     = Inr (utf8_byte_length [0x20AC, 0x41, 0x1F600, 0xE9])
   \<and> utf8_byte_length [0x20AC, 0x41, 0x1F600, 0xE9] = 10"
proof -
  have a: "(\<forall>c \<in> set (py ''0123456789''). c < 0x80) \<and> length (py ''0123456789'') = 10"
    by (simp add: py_def)
  have b: "encodable [0x20AC, 0x41, 0x1F600, 0xE9]"
    by (simp add: encodable_def)
  have c: "utf8_byte_length [0x20AC, 0x41, 0x1F600, 0xE9] = 10"
    by (simp add: utf8_byte_length_def utf8_width_def)
  from calculate_input_size_cases [THEN conjunct2, THEN conjunct1, rule_format, OF a]
    calculate_input_size_cases [THEN conjunct2, THEN conjunct2, THEN conjunct1, rule_format, OF b]
    c
  show ?thesis by blast
qed

section \<open>Properties of provider selection\<close>

lemma candidates_loop_Some:
  "candidates_loop fp req (Some S) = Some (S \<inter> (\<Inter>c\<in>set req. set (fp c)))"
  by (induction req arbitrary: S) (auto simp: Let_def)

lemma candidates_loop_None:
  "candidates_loop fp req None = (if req = [] then None else Some (candidates fp req))"
  by (cases req) (auto simp: Let_def candidates_loop_Some candidates_def)

lemma finite_candidates: "req \<noteq> [] \<Longrightarrow> finite (candidates fp req)"
  by (cases req) (auto simp: candidates_def)

text \<open>
  C7, as amended. Let \<open>list_of\<close> list the elements of every finite set. The function
  returns \<open>None\<close> exactly when the list of required capabilities is empty or no provider
  supports all of them. Otherwise it returns a provider that supports all required
  capabilities, and a preferred one whenever some preferred provider does.
\<close>

theorem find_best_provider_cases:
  assumes enum: "\<forall>S. finite S \<longrightarrow> set (list_of S) = S"
  shows "(find_best_provider_for_requirements list_of fp req pref = Inr None
            \<longleftrightarrow> req = [] \<or> candidates fp req = {})
    \<and> (req \<noteq> [] \<and> candidates fp req \<noteq> {} \<longrightarrow>
         (\<exists>p. find_best_provider_for_requirements list_of fp req pref = Inr (Some p)
            \<and> p \<in> candidates fp req
            \<and> (candidates fp req \<inter> preferred_set pref \<noteq> {} \<longrightarrow> p \<in> preferred_set pref)))"
proof (cases "req = [] \<or> candidates fp req = {}")
  case True
  then show ?thesis
    by (auto simp: find_best_provider_for_requirements_def candidates_loop_None)
next
  case False
  then have req: "req \<noteq> []" and ne: "candidates fp req \<noteq> {}" by simp_all
  define C where "C = (case pref of
                  None \<Rightarrow> candidates fp req
                | Some preferred \<Rightarrow>
                    if preferred = [] then candidates fp req
                    else (let preferred_candidates = candidates fp req \<inter> set preferred
                          in if preferred_candidates \<noteq> {} then preferred_candidates
                             else candidates fp req))"
  have C_sub: "C \<subseteq> candidates fp req" and C_ne: "C \<noteq> {}"
    and C_pref: "candidates fp req \<inter> preferred_set pref \<noteq> {} \<Longrightarrow> C \<subseteq> preferred_set pref"
    using ne by (auto simp: C_def preferred_set_def Let_def split: option.splits)
  have "finite C" using C_sub finite_candidates [OF req] by (rule finite_subset)
  with enum have set_C: "set (list_of C) = C" by blast
  with C_ne obtain p ps where l: "list_of C = p # ps" by (cases "list_of C") auto
  with set_C have pC: "p \<in> C" by auto
  have res: "find_best_provider_for_requirements list_of fp req pref = Inr (Some p)"
    using req ne l
    by (simp add: find_best_provider_for_requirements_def candidates_loop_None C_def [symmetric])
  show ?thesis using res pC C_sub C_pref req ne by auto
qed

theorem find_best_provider_cases_witness:
  "find_best_provider_for_requirements sorted_list_of_set
     (\<lambda>c. if c = py ''threading'' then [py ''slack'', py ''discord'']
          else if c = py ''reactions'' then [py ''discord'', py ''slack'', py ''teams'']
          else [])
     [py ''threading'', py ''reactions''] (Some [py ''teams'', py ''slack''])
   = Inr (Some (py ''slack''))"
proof -
  let ?fp = "\<lambda>c. if c = py ''threading'' then [py ''slack'', py ''discord'']
          else if c = py ''reactions'' then [py ''discord'', py ''slack'', py ''teams'']
          else []"
  let ?req = "[py ''threading'', py ''reactions'']"
  let ?pref = "Some [py ''teams'', py ''slack'']"
  have enum: "\<forall>S::pystr set. finite S \<longrightarrow> set (sorted_list_of_set S) = S" by simp
  have names: "py ''reactions'' \<noteq> py ''threading''" "py ''slack'' \<noteq> py ''discord''"
    "py ''teams'' \<noteq> py ''slack''" "py ''teams'' \<noteq> py ''discord''"
    "py ''discord'' \<noteq> py ''slack''" "py ''slack'' \<noteq> py ''teams''"
    by (simp_all add: py_def)
  have c: "candidates ?fp ?req = {py ''slack'', py ''discord''}"
    using names by (auto simp: candidates_def)
  have p: "preferred_set ?pref = {py ''teams'', py ''slack''}"
    by (simp add: preferred_set_def)
  have cp: "candidates ?fp ?req \<inter> preferred_set ?pref = {py ''slack''}"
    unfolding c p using names by auto
  have "?req \<noteq> [] \<and> candidates ?fp ?req \<noteq> {}" unfolding c by simp
  from find_best_provider_cases [OF enum, THEN conjunct2, rule_format, OF this,
      where pref = ?pref]
  obtain q where q: "find_best_provider_for_requirements sorted_list_of_set ?fp ?req ?pref
        = Inr (Some q)" "q \<in> candidates ?fp ?req"
      "candidates ?fp ?req \<inter> preferred_set ?pref \<noteq> {} \<longrightarrow> q \<in> preferred_set ?pref"
    by blast
  have ne: "candidates ?fp ?req \<inter> preferred_set ?pref \<noteq> {}"
    by (simp only: cp) simp
  with q(3) have "q \<in> preferred_set ?pref" by blast
  with q(2) have "q \<in> candidates ?fp ?req \<inter> preferred_set ?pref" by blast
  then have "q \<in> {py ''slack''}" by (simp only: cp)
  then have "q = py ''slack''" by simp
  with q(1) show ?thesis by simp
qed

text \<open>
  The claim C7 as stated fails on an empty list of requirements: the function returns
  \<open>None\<close> although a provider supports every capability required (there is none to
  support).
\<close>

theorem find_best_provider_counterexample:
  "\<not> (find_best_provider_for_requirements sorted_list_of_set (\<lambda>c. [py ''slack'']) [] None
        = Inr None
      \<longleftrightarrow> \<not> (\<exists>p. \<forall>c \<in> set []. p \<in> set ((\<lambda>c. [py ''slack'']) c)))"
  by (simp add: find_best_provider_for_requirements_def)

section \<open>Properties of the pipeline\<close>

lemma stage_failed_cases:
  "stage_failed r \<Longrightarrow> (\<exists>e. r = Returned (Inl e)) \<or> (\<exists>x. r = Raised x)"
  by (auto simp: stage_failed_def split: outcome.splits sum.splits)

lemma stage_succeeded_cases:
  "stage_succeeded r \<Longrightarrow> \<exists>a. r = Returned (Inr a)"
  by (auto simp: stage_succeeded_def split: outcome.splits sum.splits)

lemmas process_unfold =
  process_def Let_def create_pipeline_result_def mark_completed_def
  execute_authentication_stage_def execute_validation_stage_def execute_processing_stage_def

lemma dom_two: "dom [k \<mapsto> x, l \<mapsto> y] = {k, l}"
  by auto

lemma process_auth_failed:
  assumes "stage_failed (A cred ctx)"
  shows "\<exists>res. process A V P clk pid raw cred ctx = Returned res
           \<and> stages_completed res = []
           \<and> py ''validation'' \<notin> set (stages_completed res)
           \<and> py ''processing'' \<notin> set (stages_completed res)
           \<and> dom (stage_timings res) = {py ''authentication''}"
    and "process A V P clk pid raw cred ctx = process A V' P' clk pid raw' cred ctx"
  using stage_failed_cases [OF assms] by (auto simp: process_unfold)

lemma process_validation_failed:
  assumes "A cred ctx = Returned (Inr a)" "stage_failed (V raw a)"
  shows "\<exists>res. process A V P clk pid raw cred ctx = Returned res
           \<and> stages_completed res = [py ''authentication'']
           \<and> dom (stage_timings res) = {py ''authentication'', py ''validation''}"
    and "process A V P clk pid raw cred ctx = process A V P' clk pid raw cred ctx"
  using stage_failed_cases [OF assms(2)] assms(1)
  by (auto simp: process_unfold dom_two simp del: dom_fun_upd dom_map_upds)

lemma process_processing_failed:
  assumes "A cred ctx = Returned (Inr a)" "V raw a = Returned (Inr v)"
    "stage_failed (P v a)"
  shows "\<exists>res. process A V P clk pid raw cred ctx = Returned res
           \<and> stages_completed res = [py ''authentication'', py ''validation'']"
  using stage_failed_cases [OF assms(3)] assms(1,2) by (auto simp: process_unfold)

lemma process_succeeded:
  assumes "A cred ctx = Returned (Inr a)" "V raw a = Returned (Inr v)"
    "stage_succeeded (P v a)"
  shows "\<exists>res. process A V P clk pid raw cred ctx = Returned res
           \<and> stages_completed res
               = [py ''authentication'', py ''validation'', py ''processing'']"
  using stage_succeeded_cases [OF assms(3)] assms(1,2) by (auto simp: process_unfold)

lemma process_propagates:
  "A cred ctx = RaisedBase e \<Longrightarrow> process A V P clk pid raw cred ctx = RaisedBase e"
  "A cred ctx = Returned (Inr a) \<Longrightarrow> V raw a = RaisedBase e
     \<Longrightarrow> process A V P clk pid raw cred ctx = RaisedBase e"
  "A cred ctx = Returned (Inr a) \<Longrightarrow> V raw a = Returned (Inr v) \<Longrightarrow> P v a = RaisedBase e
     \<Longrightarrow> process A V P clk pid raw cred ctx = RaisedBase e"
  by (simp_all add: process_unfold)

text \<open>
  C3. In every run of the pipeline: when authentication fails (an error \<open>Result\<close> or an
  exception of class \<open>Exception\<close>), the run returns a result whose \<open>stages_completed\<close> is
  empty (it contains neither \<open>validation\<close> nor \<open>processing\<close>), only the authentication
  stage has a timing, and the run does not depend on the validator, the processor or
  the raw input, which are never called; when authentication succeeds and validation
  fails, \<open>stages_completed\<close> is \<open>["authentication"]\<close> and the run does not depend on
  the processor; when both succeed, \<open>stages_completed\<close> is \<open>authentication\<close>, \<open>validation\<close>
  and, exactly when processing succeeds, \<open>processing\<close>. Each stage helper appends its
  stage's name to \<open>stages_completed\<close> exactly when its collaborator returns a success.
  A \<open>BaseException\<close> of a collaborator ends the run with no result, and the helper it
  leaves has appended nothing.
\<close>

theorem pipeline_fixed_order:
  fixes A V P clk pid raw cred ctx
    and run :: "('ev, 'x, 'pc) PipelineResult outcome"
  defines "run \<equiv> process A V P clk pid raw cred ctx"
  shows
  "(stage_failed (A cred ctx) \<longrightarrow>
      (\<exists>res. run = Returned res
         \<and> stages_completed res = []
         \<and> py ''validation'' \<notin> set (stages_completed res)
         \<and> py ''processing'' \<notin> set (stages_completed res)
         \<and> dom (stage_timings res) = {py ''authentication''})
      \<and> run = process A V' P' clk pid raw' cred ctx)
   \<and> (A cred ctx = Returned (Inr a) \<and> stage_failed (V raw a) \<longrightarrow>
      (\<exists>res. run = Returned res
         \<and> stages_completed res = [py ''authentication'']
         \<and> dom (stage_timings res) = {py ''authentication'', py ''validation''})
      \<and> run = process A V P'' clk pid raw cred ctx)
   \<and> (A cred ctx = Returned (Inr a) \<and> V raw a = Returned (Inr v) \<and> stage_failed (P v a) \<longrightarrow>
      (\<exists>res. run = Returned res
         \<and> stages_completed res = [py ''authentication'', py ''validation'']))
   \<and> (A cred ctx = Returned (Inr a) \<and> V raw a = Returned (Inr v)
        \<and> stage_succeeded (P v a) \<longrightarrow>
      (\<exists>res. run = Returned res
         \<and> stages_completed res
             = [py ''authentication'', py ''validation'', py ''processing'']))
   \<and> stages_completed (snd (execute_authentication_stage A t cred ctx r1))
        = stages_completed r1 @ (if stage_succeeded (A cred ctx) then [py ''authentication''] else [])
   \<and> stages_completed (snd (execute_validation_stage V t raw a r2))
        = stages_completed r2 @ (if stage_succeeded (V raw a) then [py ''validation''] else [])
   \<and> stages_completed (snd (execute_processing_stage P t v a r3))
        = stages_completed r3 @ (if stage_succeeded (P v a) then [py ''processing''] else [])
   \<and> (A cred ctx = RaisedBase e \<longrightarrow> run = RaisedBase e)
   \<and> (A cred ctx = Returned (Inr a) \<and> V raw a = RaisedBase e \<longrightarrow> run = RaisedBase e)
   \<and> (A cred ctx = Returned (Inr a) \<and> V raw a = Returned (Inr v) \<and> P v a = RaisedBase e
        \<longrightarrow> run = RaisedBase e)"
proof (intro conjI impI)
  assume f: "stage_failed (A cred ctx)"
  show "\<exists>res. run = Returned res
         \<and> stages_completed res = []
         \<and> py ''validation'' \<notin> set (stages_completed res)
         \<and> py ''processing'' \<notin> set (stages_completed res)
         \<and> dom (stage_timings res) = {py ''authentication''}"
    unfolding run_def using f by (rule process_auth_failed)
  show "run = process A V' P' clk pid raw' cred ctx"
    unfolding run_def using f by (rule process_auth_failed)
next
  assume "A cred ctx = Returned (Inr a) \<and> stage_failed (V raw a)"
  then have f1: "A cred ctx = Returned (Inr a)" and f2: "stage_failed (V raw a)" by simp_all
  show "\<exists>res. run = Returned res
         \<and> stages_completed res = [py ''authentication'']
         \<and> dom (stage_timings res) = {py ''authentication'', py ''validation''}"
    unfolding run_def using f1 f2 by (rule process_validation_failed)
  show "run = process A V P'' clk pid raw cred ctx"
    unfolding run_def using f1 f2 by (rule process_validation_failed)
next
  assume "A cred ctx = Returned (Inr a) \<and> V raw a = Returned (Inr v) \<and> stage_failed (P v a)"
  then have f1: "A cred ctx = Returned (Inr a)" and f2: "V raw a = Returned (Inr v)"
    and f3: "stage_failed (P v a)" by simp_all
  show "\<exists>res. run = Returned res
         \<and> stages_completed res = [py ''authentication'', py ''validation'']"
    unfolding run_def using f1 f2 f3 by (rule process_processing_failed)
next
  assume "A cred ctx = Returned (Inr a) \<and> V raw a = Returned (Inr v) \<and> stage_succeeded (P v a)"
  then have f1: "A cred ctx = Returned (Inr a)" and f2: "V raw a = Returned (Inr v)"
    and f3: "stage_succeeded (P v a)" by simp_all
  show "\<exists>res. run = Returned res
         \<and> stages_completed res
             = [py ''authentication'', py ''validation'', py ''processing'']"
    unfolding run_def using f1 f2 f3 by (rule process_succeeded)
next
  show "stages_completed (snd (execute_authentication_stage A t cred ctx r1))
        = stages_completed r1 @ (if stage_succeeded (A cred ctx) then [py ''authentication''] else [])"
    by (simp add: execute_authentication_stage_def stage_succeeded_def Let_def
        split: outcome.splits sum.splits)
next
  show "stages_completed (snd (execute_validation_stage V t raw a r2))
        = stages_completed r2 @ (if stage_succeeded (V raw a) then [py ''validation''] else [])"
    by (simp add: execute_validation_stage_def stage_succeeded_def Let_def
        split: outcome.splits sum.splits)
next
  show "stages_completed (snd (execute_processing_stage P t v a r3))
        = stages_completed r3 @ (if stage_succeeded (P v a) then [py ''processing''] else [])"
    by (simp add: execute_processing_stage_def stage_succeeded_def Let_def
        split: outcome.splits sum.splits)
next
  assume "A cred ctx = RaisedBase e"
  then show "run = RaisedBase e" unfolding run_def by (rule process_propagates)
next
  assume "A cred ctx = Returned (Inr a) \<and> V raw a = RaisedBase e"
  then have "A cred ctx = Returned (Inr a)" "V raw a = RaisedBase e" by simp_all
  then show "run = RaisedBase e" unfolding run_def by (rule process_propagates)
next
  assume "A cred ctx = Returned (Inr a) \<and> V raw a = Returned (Inr v) \<and> P v a = RaisedBase e"
  then have "A cred ctx = Returned (Inr a)" "V raw a = Returned (Inr v)" "P v a = RaisedBase e"
    by simp_all
  then show "run = RaisedBase e" unfolding run_def by (rule process_propagates)
qed

theorem pipeline_fixed_order_witness:
  "(\<exists>res. (process (\<lambda>(c::unit) (x::unit). Raised (py ''store down'') :: (unit, unit) stage_result)
        (\<lambda>(c::unit) (x::unit). Returned (Inr ()) :: (unit, unit) stage_result)
        (\<lambda>(c::unit) (x::unit). Returned (Inr ()) :: (unit, unit) stage_result)
        \<lparr>t_started = 0, authentication_ms = 3, validation_ms = 2, processing_ms = 5,
         t_completed = 10, total_ms = 10\<rparr> (py ''pipeline_1'') () () ()
      :: (unit, unit, unit) PipelineResult outcome) = Returned res
      \<and> stages_completed res = []
      \<and> py ''validation'' \<notin> set (stages_completed res)
      \<and> py ''processing'' \<notin> set (stages_completed res)
      \<and> dom (stage_timings res) = {py ''authentication''})
   \<and> (\<exists>res. (process (\<lambda>(c::unit) (x::unit). Returned (Inr ()) :: (unit, unit) stage_result)
        (\<lambda>(i::unit) (a::unit). Returned (Inl \<lparr>error_type = py ''validation_error'',
             message = py ''too large'', component = py ''SafetyValidator''\<rparr>)
           :: (unit, unit) stage_result)
        (\<lambda>(c::unit) (x::unit). Returned (Inr ()) :: (unit, unit) stage_result)
        \<lparr>t_started = 0, authentication_ms = 3, validation_ms = 2, processing_ms = 5,
         t_completed = 10, total_ms = 10\<rparr> (py ''pipeline_1'') () () ()
      :: (unit, unit, unit) PipelineResult outcome) = Returned res
      \<and> stages_completed res = [py ''authentication'']
      \<and> dom (stage_timings res) = {py ''authentication'', py ''validation''})"
proof -
  let ?clk = "\<lparr>t_started = 0, authentication_ms = 3, validation_ms = 2, processing_ms = 5,
         t_completed = 10, total_ms = 10\<rparr>"
  let ?ok = "\<lambda>(c::unit) (x::unit). Returned (Inr ()) :: (unit, unit) stage_result"
  let ?down = "\<lambda>(c::unit) (x::unit). Raised (py ''store down'') :: (unit, unit) stage_result"
  let ?bad = "\<lambda>(i::unit) (a::unit). Returned (Inl \<lparr>error_type = py ''validation_error'',
             message = py ''too large'', component = py ''SafetyValidator''\<rparr>)
           :: (unit, unit) stage_result"
  have a: "stage_failed (?down () ())" by (simp add: stage_failed_def)
  have b: "?ok () () = Returned (Inr ()) \<and> stage_failed (?bad () ())"
    by (simp add: stage_failed_def)
  note t1 = pipeline_fixed_order [where A = ?down and V = ?ok and P = ?ok and clk = ?clk
      and pid = "py ''pipeline_1''" and raw = "()" and cred = "()" and ctx = "()"
      and ?'pc = unit, THEN conjunct1, rule_format, THEN conjunct1]
  note t2 = pipeline_fixed_order [where A = ?ok and V = ?bad and P = ?ok and clk = ?clk
      and pid = "py ''pipeline_1''" and raw = "()" and cred = "()" and ctx = "()" and a = "()"
      and ?'pc = unit, THEN conjunct2, THEN conjunct1, rule_format, THEN conjunct1]
  from t1 [OF a] t2 [OF b] show ?thesis by (rule conjI)
qed







section \<open>Properties of event identifiers\<close>

lemma key_names_distinct:
  "py ''event_id'' \<noteq> py ''stream_id''" "py ''event_id'' \<noteq> py ''trace_id''"
  "py ''stream_id'' \<noteq> py ''trace_id''"
  by (simp_all add: py_def)

lemma stream_id_entry:
  "generate_event_ids u1 u2 pc (py ''stream_id'') =
     Some (py_or (stream_id pc) (py_or (session_id (auth_context pc)) (py ''stream_'' @ take 8 u1)))"
  by (simp add: generate_event_ids_def Let_def key_names_distinct)

text \<open>
  C9, as amended. The \<open>stream_id\<close> of the returned dictionary is the context's
  \<open>stream_id\<close> when that is set and not the empty string; otherwise the \<open>session_id\<close> of
  the authentication context when that is set and not the empty string; otherwise
  \<open>stream_\<close> followed by the first eight characters of the fresh event id. It is the
  precedence of the specification whenever neither identifier is the empty string.
\<close>

theorem stream_id_precedence:
  "(stream_id pc = Some s \<and> s \<noteq> [] \<longrightarrow> generate_event_ids u1 u2 pc (py ''stream_id'') = Some s)
   \<and> (unset (stream_id pc) \<and> session_id (auth_context pc) = Some t \<and> t \<noteq> [] \<longrightarrow>
        generate_event_ids u1 u2 pc (py ''stream_id'') = Some t)
   \<and> (unset (stream_id pc) \<and> unset (session_id (auth_context pc)) \<longrightarrow>
        generate_event_ids u1 u2 pc (py ''stream_id'') = Some (py ''stream_'' @ take 8 u1))
   \<and> generate_event_ids u1 u2 pc (py ''event_id'') = Some u1
   \<and> generate_event_ids u1 u2 pc (py ''trace_id'') = Some u2
   \<and> (stream_id pc \<noteq> Some [] \<and> session_id (auth_context pc) \<noteq> Some [] \<longrightarrow>
        generate_event_ids u1 u2 pc (py ''stream_id'') = Some (spec_stream_id pc u1))"
proof (intro conjI impI)
  show "generate_event_ids u1 u2 pc (py ''event_id'') = Some u1"
    by (simp add: generate_event_ids_def Let_def key_names_distinct)
  show "generate_event_ids u1 u2 pc (py ''trace_id'') = Some u2"
    by (simp add: generate_event_ids_def Let_def key_names_distinct)
qed (auto simp: stream_id_entry py_or_def unset_def spec_stream_id_def split: option.splits)

theorem stream_id_precedence_witness:
  "generate_event_ids (py ''0f8fad5b-d9cb'') (py ''7c9e6679'')
     (\<lparr>auth_context = \<lparr>user_id = py ''u1'', source_type = py ''api'',
            source_id = py ''key_1'', granted_permissions = [py ''chat''],
            session_id = Some (py ''sess_42''), authenticated_at = 0, expires_at = None,
            auth_metadata = Map.empty\<rparr>,
         validated_input = (), pipeline_start_time = 0,
         processing_steps = [py ''authentication'', py ''validation''],
         target_event_type = py ''input.message.text'', stream_id = None,
         thread_id = None, adapter_context = Map.empty\<rparr> :: unit ProcessingContext)
     (py ''stream_id'') = Some (py ''sess_42'')"
proof -
  let ?pc = "\<lparr>auth_context = \<lparr>user_id = py ''u1'', source_type = py ''api'',
            source_id = py ''key_1'', granted_permissions = [py ''chat''],
            session_id = Some (py ''sess_42''), authenticated_at = 0, expires_at = None,
            auth_metadata = Map.empty\<rparr>,
         validated_input = (), pipeline_start_time = 0,
         processing_steps = [py ''authentication'', py ''validation''],
         target_event_type = py ''input.message.text'', stream_id = None,
         thread_id = None, adapter_context = Map.empty\<rparr> :: unit ProcessingContext"
  have "unset (stream_id ?pc) \<and> session_id (auth_context ?pc) = Some (py ''sess_42'')
        \<and> py ''sess_42'' \<noteq> []"
    by (simp add: unset_def py_def)
  from stream_id_precedence [THEN conjunct2, THEN conjunct1, rule_format, OF this]
  show ?thesis .
qed

text \<open>
  The claim C9 as stated fails when the context's \<open>stream_id\<close> is set to the empty
  string: the code passes it over and takes the session id.
\<close>

theorem stream_id_precedence_counterexample:
  "generate_event_ids (py ''0f8fad5b-d9cb'') (py ''7c9e6679'')
     (\<lparr>auth_context = \<lparr>user_id = py ''u1'', source_type = py ''api'',
            source_id = py ''key_1'', granted_permissions = [py ''chat''],
            session_id = Some (py ''sess_42''), authenticated_at = 0, expires_at = None,
            auth_metadata = Map.empty\<rparr>,
         validated_input = (), pipeline_start_time = 0,
         processing_steps = [py ''authentication'', py ''validation''],
         target_event_type = py ''input.message.text'', stream_id = Some [],
         thread_id = None, adapter_context = Map.empty\<rparr> :: unit ProcessingContext)
     (py ''stream_id'') = Some (py ''sess_42'')
   \<and> spec_stream_id
     (\<lparr>auth_context = \<lparr>user_id = py ''u1'', source_type = py ''api'',
            source_id = py ''key_1'', granted_permissions = [py ''chat''],
            session_id = Some (py ''sess_42''), authenticated_at = 0, expires_at = None,
            auth_metadata = Map.empty\<rparr>,
         validated_input = (), pipeline_start_time = 0,
         processing_steps = [py ''authentication'', py ''validation''],
         target_event_type = py ''input.message.text'', stream_id = Some [],
         thread_id = None, adapter_context = Map.empty\<rparr> :: unit ProcessingContext)
     (py ''0f8fad5b-d9cb'') = []
   \<and> py ''sess_42'' \<noteq> []"
  unfolding stream_id_entry by (simp add: py_or_def spec_stream_id_def py_def)

end
